theory Spec2Isabelle
  imports Main "HOL-Library.AList"
begin

section \<open>WebRTC signaling relay: mailbox, connection registry, sweep\<close>

text \<open>
  A shallow embedding of \<^verbatim>\<open>backend/app.py\<close>. The two process-wide dictionaries
  (\<^verbatim>\<open>peers\<close> and \<^verbatim>\<open>manager.active_connections\<close>) are association lists in
  insertion order, read with \<open>map_of\<close>, written with \<open>AList.update\<close> (which
  overwrites in place or appends, as a Python dict does) and \<open>AList.delete\<close>.
  Every handler is a function from the server state to a result and a new state; each
  reading of \<^verbatim>\<open>datetime.utcnow()\<close> is an argument \<open>now\<close>. A handler runs from
  its entry to its return as one step: the suspension points inside a handler
  (\<^verbatim>\<open>await\<close>) and the \<^verbatim>\<open>asyncio.Lock\<close>, which is never contended under
  cooperative scheduling, are not modelled.
\<close>

subsection \<open>Data\<close>

text \<open>Instants and durations in microseconds, the resolution of \<^verbatim>\<open>datetime\<close>.\<close>

type_synonym time = int

definition minutes :: "int \<Rightarrow> int" where
  "minutes n = n * 60 * 1000000"

text \<open>
  JSON values as \<^verbatim>\<open>json.loads\<close> produces them and pydantic's \<^verbatim>\<open>Dict\<close> holds
  them (floating-point numbers left out: no code path looks at a number).
\<close>

datatype json =
    JNull
  | JBool bool
  | JInt int
  | JStr string
  | JArr "json list"
  | JObj "(string \<times> json) list"

datatype exn = KeyError | AttributeError | SendFailed | AcceptFailed | WebSocketDisconnect

record PeerData =
  offer :: "json option"
  answer :: "json option"
  candidates :: "json list"
  last_updated :: time

text \<open>\<^verbatim>\<open>PeerData()\<close>: the defaults of the model class, the clock read by the factory.\<close>

definition PeerData_new :: "time \<Rightarrow> PeerData" where
  "PeerData_new now = \<lparr>offer = None, answer = None, candidates = [], last_updated = now\<rparr>"

record SignalData =
  from_peer :: string
  to_peer :: string
  signal :: json

record IceCandidate =
  ice_from_peer :: string
  ice_to_peer :: string
  candidate :: json

datatype level = DEBUG | INFO | WARNING | ERROR

text \<open>The numeric value of a level, as \<^verbatim>\<open>logging\<close> orders them.\<close>

fun levelno :: "level \<Rightarrow> nat" where
  "levelno DEBUG = 10"
| "levelno INFO = 20"
| "levelno WARNING = 30"
| "levelno ERROR = 40"

text \<open>The messages passed to \<^verbatim>\<open>logger\<close>, by what they report.\<close>

datatype log_msg =
    ClientConnected string nat
  | ClientDisconnected string nat
  | SendError string exn
  | CleanedUp string
  | CleanupError exn
  | ReceivedOffer string string
  | ReceivedAnswer string string
  | ReceivedIce string
  | MessageFrom string json
  | InvalidJSON string string
  | ProcessingError string exn
  | HandlerDisconnected string
  | WebSocketError string exn

text \<open>
  The server state. A \<^verbatim>\<open>WebSocket\<close> object is a number; \<open>alive\<close> and
  \<open>delivered\<close> are the environment seen through it: the sockets on which
  \<^verbatim>\<open>accept\<close> and \<^verbatim>\<open>send_text\<close> succeed, and the frames sent so far, in order.
\<close>

record server =
  peers :: "(string \<times> PeerData) list"
  active_connections :: "(string \<times> nat) list"
  alive :: "nat set"
  delivered :: "(nat \<times> string) list"
  logged :: "(level \<times> log_msg) list"

text \<open>
  \<^verbatim>\<open>logging.basicConfig(level=logging.INFO)\<close>: a call at a level below
  \<open>INFO\<close> records nothing, so \<^verbatim>\<open>logger.debug\<close> leaves the state as it is;
  \<open>logged\<close> holds the records made, in order.
\<close>

definition logger :: "level \<Rightarrow> log_msg \<Rightarrow> server \<Rightarrow> server" where
  "logger lv m s =
     (if levelno INFO \<le> levelno lv then s\<lparr>logged := logged s @ [(lv, m)]\<rparr> else s)"

definition startup :: "nat set \<Rightarrow> server" where
  "startup open_sockets =
     \<lparr>peers = [], active_connections = [], alive = open_sockets, delivered = [], logged = []\<rparr>"

subsection \<open>The websocket, as the server sees it\<close>

definition accept :: "nat \<Rightarrow> server \<Rightarrow> exn + server" where
  "accept websocket s = (if websocket \<in> alive s then Inr s else Inl AcceptFailed)"

definition send_text :: "nat \<Rightarrow> string \<Rightarrow> server \<Rightarrow> exn + server" where
  "send_text websocket message s =
     (if websocket \<in> alive s
      then Inr (s\<lparr>delivered := delivered s @ [(websocket, message)]\<rparr>)
      else Inl SendFailed)"

subsection \<open>ConnectionManager\<close>

definition connect :: "nat \<Rightarrow> string \<Rightarrow> server \<Rightarrow> exn + server" where
  "connect websocket client_id s =
     (case accept websocket s of
        Inl e \<Rightarrow> Inl e
      | Inr s1 \<Rightarrow>
          (let s2 = s1\<lparr>active_connections :=
                         AList.update client_id websocket (active_connections s1)\<rparr>
           in Inr (logger INFO
                     (ClientConnected client_id (length (active_connections s2))) s2)))"

definition disconnect :: "string \<Rightarrow> server \<Rightarrow> server" where
  "disconnect client_id s =
     (let s1 = (if map_of (active_connections s) client_id \<noteq> None
                then s\<lparr>active_connections :=
                         AList.delete client_id (active_connections s)\<rparr>
                else s)
      in logger INFO (ClientDisconnected client_id (length (active_connections s1))) s1)"

definition send_personal_message :: "string \<Rightarrow> string \<Rightarrow> server \<Rightarrow> bool \<times> server" where
  "send_personal_message message client_id s =
     (case map_of (active_connections s) client_id of
        Some websocket \<Rightarrow>
          (case send_text websocket message s of
             Inr s1 \<Rightarrow> (True, s1)
           | Inl e \<Rightarrow> (False, disconnect client_id (logger ERROR (SendError client_id e) s)))
      | None \<Rightarrow> (False, s))"

subsection \<open>The sweep\<close>

definition expired_peers :: "time \<Rightarrow> (string \<times> PeerData) list \<Rightarrow> string list" where
  "expired_peers now ps =
     [peer_id. (peer_id, data) \<leftarrow> ps, now - last_updated data > minutes 30]"

text \<open>
  The \<^verbatim>\<open>for\<close> loop over \<open>expired\<close>. \<^verbatim>\<open>del peers[peer_id]\<close> raises
  \<^verbatim>\<open>KeyError\<close> on a missing key; the deletions made before it stay made.
\<close>

fun cleanup_for :: "string list \<Rightarrow> server \<Rightarrow> server \<times> exn option" where
  "cleanup_for [] s = (s, None)"
| "cleanup_for (peer_id # rest) s =
     (if map_of (peers s) peer_id \<noteq> None
      then cleanup_for rest
             (logger INFO (CleanedUp peer_id)
                (s\<lparr>peers := AList.delete peer_id (peers s)\<rparr>))
      else (s, Some KeyError))"

text \<open>One pass of the \<^verbatim>\<open>while True\<close> body: the \<^verbatim>\<open>try\<close> block and its handler.\<close>

definition cleanup_iteration :: "time \<Rightarrow> server \<Rightarrow> server" where
  "cleanup_iteration now s =
     (case cleanup_for (expired_peers now (peers s)) s of
        (s1, None) \<Rightarrow> s1
      | (s1, Some e) \<Rightarrow> logger ERROR (CleanupError e) s1)"

text \<open>
  The loop never returns; it is run here for as many passes as there are clock readings,
  one per pass (the \<^verbatim>\<open>sleep(60)\<close> between them is where other handlers run).
\<close>

fun cleanup_old_peers :: "time list \<Rightarrow> server \<Rightarrow> server" where
  "cleanup_old_peers [] s = s"
| "cleanup_old_peers (now # later) s = cleanup_old_peers later (cleanup_iteration now s)"

subsection \<open>The mailbox handlers\<close>

text \<open>
  \<^verbatim>\<open>get_peer_data\<close> returns a reference to the record in the dictionary; the
  handlers then assign to its fields. Here it returns the record and the dictionary that
  holds it, and \<open>store\<close> writes the changed record back under the same key.
  A handler that creates a record reads the clock twice, in \<^verbatim>\<open>PeerData()\<close> and in
  its own assignment to \<^verbatim>\<open>last_updated\<close>, which overwrites the first reading
  before the handler returns; both are the one argument \<open>now\<close>.
\<close>

definition get_peer_data :: "string \<Rightarrow> time \<Rightarrow> server \<Rightarrow> PeerData \<times> server" where
  "get_peer_data peer_id now s =
     (case map_of (peers s) peer_id of
        None \<Rightarrow>
          (PeerData_new now,
           s\<lparr>peers := AList.update peer_id (PeerData_new now) (peers s)\<rparr>)
      | Some peer_data \<Rightarrow> (peer_data, s))"

definition store :: "string \<Rightarrow> PeerData \<Rightarrow> server \<Rightarrow> server" where
  "store peer_id peer_data s = s\<lparr>peers := AList.update peer_id peer_data (peers s)\<rparr>"

definition offer_message :: "SignalData \<Rightarrow> json" where
  "offer_message sd =
     JObj [(''type'', JStr ''offer''), (''from'', JStr (from_peer sd)), (''signal'', signal sd)]"

text \<open>\<^verbatim>\<open>json.dumps\<close> and \<^verbatim>\<open>json.loads\<close> are the library's; they are parameters.\<close>

definition handle_offer ::
  "(json \<Rightarrow> string) \<Rightarrow> SignalData \<Rightarrow> time \<Rightarrow> server \<Rightarrow> string \<times> server" where
  "handle_offer dumps sd now s =
     (let s0 = logger INFO (ReceivedOffer (from_peer sd) (to_peer sd)) s;
          (peer_data, s1) = get_peer_data (to_peer sd) now s0;
          s2 = store (to_peer sd)
                 (peer_data\<lparr>offer := Some (signal sd), last_updated := now\<rparr>) s1;
          (sent, s3) = send_personal_message (dumps (offer_message sd)) (to_peer sd) s2
      in (''Offer received'', s3))"

definition handle_answer :: "SignalData \<Rightarrow> time \<Rightarrow> server \<Rightarrow> string \<times> server" where
  "handle_answer sd now s =
     (let s0 = logger INFO (ReceivedAnswer (from_peer sd) (to_peer sd)) s;
          (peer_data, s1) = get_peer_data (to_peer sd) now s0;
          s2 = store (to_peer sd)
                 (peer_data\<lparr>answer := Some (signal sd), last_updated := now\<rparr>) s1
      in (''Answer received'', s2))"

definition handle_ice_candidate :: "IceCandidate \<Rightarrow> time \<Rightarrow> server \<Rightarrow> string \<times> server" where
  "handle_ice_candidate ic now s =
     (let s0 = logger INFO (ReceivedIce (ice_from_peer ic)) s;
          (peer_data, s1) = get_peer_data (ice_to_peer ic) now s0;
          s2 = store (ice_to_peer ic)
                 (peer_data\<lparr>candidates := candidates peer_data @ [candidate ic],
                            last_updated := now\<rparr>) s1
      in (''ICE candidate received'', s2))"

text \<open>
  The reply of \<^verbatim>\<open>GET /check/{peer_id}\<close>; \<open>timestamp\<close> is the instant that the
  source renders with \<^verbatim>\<open>isoformat\<close>.
\<close>

datatype check_response =
    NoPeer
  | Check (resp_offer: "json option") (resp_answer: "json option") (has_candidates: bool)
      (resp_candidates: "json list") (timestamp: time)

definition check_signals :: "string \<Rightarrow> time \<Rightarrow> server \<Rightarrow> check_response \<times> server" where
  "check_signals peer_id now s =
     (case map_of (peers s) peer_id of
        None \<Rightarrow> (NoPeer, s)
      | Some peer_data \<Rightarrow>
          (Check (offer peer_data) (answer peer_data) (length (candidates peer_data) > 0)
             (candidates peer_data) now,
           store peer_id (peer_data\<lparr>answer := None, candidates := []\<rparr>) s))"

subsection \<open>The push channel handler\<close>

text \<open>\<^verbatim>\<open>message.get("type")\<close>: only a dict has \<^verbatim>\<open>get\<close>.\<close>

definition json_get :: "json \<Rightarrow> string \<Rightarrow> exn + json option" where
  "json_get message key =
     (case message of JObj kvs \<Rightarrow> Inr (map_of kvs key) | _ \<Rightarrow> Inl AttributeError)"

definition pong :: json where
  "pong = JObj [(''type'', JStr ''pong'')]"

text \<open>
  One pass of the receive loop of the handler serving \<open>websocket\<close> for \<open>client_id\<close>,
  for the text frame \<open>data\<close>. The reply goes through \<open>send_personal_message\<close>, which
  looks \<open>client_id\<close> up in the registry; the handler's own \<open>websocket\<close> is not used.
\<close>

definition on_text ::
  "(string \<Rightarrow> json option) \<Rightarrow> (json \<Rightarrow> string) \<Rightarrow> nat \<Rightarrow> string \<Rightarrow> string \<Rightarrow> server
     \<Rightarrow> server" where
  "on_text loads dumps websocket client_id data s =
     (case loads data of
        None \<Rightarrow> logger WARNING (InvalidJSON client_id data) s
      | Some message \<Rightarrow>
          (let s1 = logger DEBUG (MessageFrom client_id message) s
           in case json_get message ''type'' of
                Inl e \<Rightarrow> logger ERROR (ProcessingError client_id e) s1
              | Inr ty \<Rightarrow>
                  (if ty = Some (JStr ''ping'')
                   then snd (send_personal_message (dumps pong) client_id s1)
                   else s1)))"

text \<open>What \<^verbatim>\<open>receive_text\<close> gives: a frame, or one of the exceptions that end the loop.\<close>

datatype received = Text string | Closed | Failed exn

fun receive_loop ::
  "(string \<Rightarrow> json option) \<Rightarrow> (json \<Rightarrow> string) \<Rightarrow> nat \<Rightarrow> string \<Rightarrow> received list \<Rightarrow> server
     \<Rightarrow> server" where
  "receive_loop loads dumps websocket client_id [] s = s"
| "receive_loop loads dumps websocket client_id (Text data # rest) s =
     receive_loop loads dumps websocket client_id rest
       (on_text loads dumps websocket client_id data s)"
| "receive_loop loads dumps websocket client_id (Closed # rest) s =
     disconnect client_id (logger INFO (HandlerDisconnected client_id) s)"
| "receive_loop loads dumps websocket client_id (Failed e # rest) s =
     disconnect client_id (logger ERROR (WebSocketError client_id e) s)"

text \<open>
  The endpoint run on the frames its socket receives. A failing \<^verbatim>\<open>accept\<close> is
  outside the \<^verbatim>\<open>try\<close>, so nothing is registered and nothing is cleaned up.
\<close>

definition websocket_endpoint ::
  "(string \<Rightarrow> json option) \<Rightarrow> (json \<Rightarrow> string) \<Rightarrow> nat \<Rightarrow> string \<Rightarrow> received list \<Rightarrow> server
     \<Rightarrow> exn + server" where
  "websocket_endpoint loads dumps websocket client_id frames s =
     (case connect websocket client_id s of
        Inl e \<Rightarrow> Inl e
      | Inr s1 \<Rightarrow> Inr (receive_loop loads dumps websocket client_id frames s1))"

subsection \<open>Runs of the server\<close>

text \<open>
  The handlers interleave at their entries: a run is a list of events, each one a request,
  a socket event, a pass of the sweep, or the environment closing a socket.
\<close>

datatype event =
    EvOffer SignalData time
  | EvAnswer SignalData time
  | EvIce IceCandidate time
  | EvCheck string time
  | EvSweep time
  | EvConnect nat string
  | EvText nat string string
  | EvExit string
  | EvDrop nat

fun step ::
  "(string \<Rightarrow> json option) \<Rightarrow> (json \<Rightarrow> string) \<Rightarrow> event \<Rightarrow> server \<Rightarrow> server" where
  "step loads dumps (EvOffer sd now) s = snd (handle_offer dumps sd now s)"
| "step loads dumps (EvAnswer sd now) s = snd (handle_answer sd now s)"
| "step loads dumps (EvIce ic now) s = snd (handle_ice_candidate ic now s)"
| "step loads dumps (EvCheck peer_id now) s = snd (check_signals peer_id now s)"
| "step loads dumps (EvSweep now) s = cleanup_iteration now s"
| "step loads dumps (EvConnect websocket client_id) s =
     (case connect websocket client_id s of Inl e \<Rightarrow> s | Inr s1 \<Rightarrow> s1)"
| "step loads dumps (EvText websocket client_id data) s =
     on_text loads dumps websocket client_id data s"
| "step loads dumps (EvExit client_id) s =
     disconnect client_id (logger INFO (HandlerDisconnected client_id) s)"
| "step loads dumps (EvDrop websocket) s = s\<lparr>alive := alive s - {websocket}\<rparr>"

fun run ::
  "(string \<Rightarrow> json option) \<Rightarrow> (json \<Rightarrow> string) \<Rightarrow> event list \<Rightarrow> server \<Rightarrow> server" where
  "run loads dumps [] s = s"
| "run loads dumps (ev # evs) s = run loads dumps evs (step loads dumps ev s)"

subsection \<open>Observations\<close>

text \<open>
  What the mailbox holds for a peer (a peer without a record holds nothing), and the
  entries the registry holds for a client.
\<close>

definition pending_candidates :: "server \<Rightarrow> string \<Rightarrow> json list" where
  "pending_candidates s peer_id =
     (case map_of (peers s) peer_id of None \<Rightarrow> [] | Some d \<Rightarrow> candidates d)"

definition stored_offer :: "server \<Rightarrow> string \<Rightarrow> json option" where
  "stored_offer s peer_id =
     (case map_of (peers s) peer_id of None \<Rightarrow> None | Some d \<Rightarrow> offer d)"

definition stored_answer :: "server \<Rightarrow> string \<Rightarrow> json option" where
  "stored_answer s peer_id =
     (case map_of (peers s) peer_id of None \<Rightarrow> None | Some d \<Rightarrow> answer d)"

definition entries_for :: "string \<Rightarrow> server \<Rightarrow> (string \<times> nat) list" where
  "entries_for client_id s = filter (\<lambda>kv. fst kv = client_id) (active_connections s)"

text \<open>
  Which events write to the mailbox of a peer, and which leave an offer stored for a peer
  in place: every event but a new offer to that peer and a pass of the sweep at which
  the peer's record has expired.
\<close>

fun writes_to :: "string \<Rightarrow> event \<Rightarrow> bool" where
  "writes_to P (EvOffer sd now) = (to_peer sd = P)"
| "writes_to P (EvAnswer sd now) = (to_peer sd = P)"
| "writes_to P (EvIce ic now) = (ice_to_peer ic = P)"
| "writes_to P ev = False"

fun keeps_offer :: "string \<Rightarrow> event \<Rightarrow> server \<Rightarrow> bool" where
  "keeps_offer P (EvOffer sd now) s = (to_peer sd \<noteq> P)"
| "keeps_offer P (EvSweep now) s = (P \<notin> set (expired_peers now (peers s)))"
| "keeps_offer P ev s = True"

fun undisturbed ::
  "(string \<Rightarrow> json option) \<Rightarrow> (json \<Rightarrow> string) \<Rightarrow> string \<Rightarrow> event list \<Rightarrow> server \<Rightarrow> bool" where
  "undisturbed loads dumps P [] s = True"
| "undisturbed loads dumps P (ev # evs) s =
     (keeps_offer P ev s \<and> undisturbed loads dumps P evs (step loads dumps ev s))"

subsection \<open>Example states and inputs\<close>

text \<open>
  A registry in which \<open>bob\<close> is on the open socket 1, \<open>carol\<close> on the closed socket
  2 and \<open>dave\<close> is not registered; a mailbox with one full record; the two states that
  \<open>connect\<close> reaches when sockets 1 and 2 register as \<open>bob\<close> one after the other.
\<close>

definition registry_demo :: server where
  "registry_demo = (startup {1})\<lparr>active_connections := [(''bob'', 1), (''carol'', 2)]\<rparr>"

definition mailbox_demo :: server where
  "mailbox_demo = (startup {})\<lparr>peers :=
     [(''bob'', \<lparr>offer = Some (JObj [(''sdp'', JStr ''x'')]), answer = Some (JObj [(''sdp'', JStr ''y'')]),
                candidates = [JObj [(''c'', JInt 1)]], last_updated = 0\<rparr>)]\<rparr>"

definition once_connected :: server where
  "once_connected =
     \<lparr>peers = [], active_connections = [(''bob'', 1)], alive = {1, 2}, delivered = [],
      logged = [(INFO, ClientConnected ''bob'' 1)]\<rparr>"

definition twice_connected :: server where
  "twice_connected =
     \<lparr>peers = [], active_connections = [(''bob'', 2)], alive = {1, 2}, delivered = [],
      logged = [(INFO, ClientConnected ''bob'' 1), (INFO, ClientConnected ''bob'' 1)]\<rparr>"

text \<open>
  Mailboxes for the sweep: three records written at instants 0, 1 and 2; and a list
  that names one key twice, which no dictionary does, on which \<^verbatim>\<open>del\<close> raises.
\<close>

definition sweep_demo :: server where
  "sweep_demo = (startup {})\<lparr>peers :=
     [(''old'', PeerData_new 0), (''edge'', PeerData_new 1), (''new'', PeerData_new 2)]\<rparr>"

definition stale_twice :: server where
  "stale_twice = (startup {})\<lparr>peers :=
     [(''bob'', PeerData_new 0), (''bob'', PeerData_new 0)]\<rparr>"

text \<open>
  A parser and a printer to run the handler on: one frame reads as the ping message, one
  as another object, one as a list, the rest is not JSON.
\<close>

definition demo_loads :: "string \<Rightarrow> json option" where
  "demo_loads data =
     (if data = ''PING'' then Some (JObj [(''type'', JStr ''ping'')])
      else if data = ''HELLO'' then Some (JObj [(''type'', JStr ''hello'')])
      else if data = ''LIST'' then Some (JArr [])
      else None)"

definition demo_dumps :: "json \<Rightarrow> string" where
  "demo_dumps j = (if j = pong then ''PONG'' else ''OTHER'')"

definition offer_demo :: SignalData where
  "offer_demo = \<lparr>from_peer = ''al'', to_peer = ''bob'', signal = JObj [(''sdp'', JStr ''x'')]\<rparr>"

definition poll_events :: "event list" where
  "poll_events = [EvCheck ''bob'' 1, EvSweep 2, EvCheck ''bob'' 3]"

definition other_events :: "event list" where
  "other_events = [EvOffer offer_demo 1, EvCheck ''zed'' 2, EvSweep 3]"

section \<open>Properties\<close>

subsection \<open>What each operation leaves alone\<close>

lemma logger_fields:
  "peers (logger lv m s) = peers s"
  "active_connections (logger lv m s) = active_connections s"
  "alive (logger lv m s) = alive s"
  "delivered (logger lv m s) = delivered s"
  "logged (logger lv m s) =
     (if levelno INFO \<le> levelno lv then logged s @ [(lv, m)] else logged s)"
  by (simp_all add: logger_def)


lemma store_fields:
  "peers (store k d s) = AList.update k d (peers s)"
  "active_connections (store k d s) = active_connections s"
  "alive (store k d s) = alive s"
  "delivered (store k d s) = delivered s"
  "logged (store k d s) = logged s"
  by (simp_all add: store_def)

lemma disconnect_fields:
  "peers (disconnect c s) = peers s"
  "active_connections (disconnect c s) = AList.delete c (active_connections s)"
  "alive (disconnect c s) = alive s"
  "delivered (disconnect c s) = delivered s"
  by (simp_all add: disconnect_def Let_def logger_fields map_of_eq_None_iff)

lemma send_peers: "peers (snd (send_personal_message m c s)) = peers s"
  by (simp add: send_personal_message_def send_text_def disconnect_fields logger_fields
      split: option.splits)

lemma send_alive: "alive (snd (send_personal_message m c s)) = alive s"
  by (simp add: send_personal_message_def send_text_def disconnect_fields logger_fields
      split: option.splits)

subsection \<open>Sending through the registry\<close>

text \<open>
  Claim C4. \<open>send_personal_message\<close> (the spec's \<open>sendIfPresent\<close>): with a channel
  registered for \<open>C\<close> on which the send succeeds it returns true and the frame is sent;
  with a channel registered on which the send fails it returns false and the registry
  is left as \<open>disconnect C\<close> leaves it, without an entry for \<open>C\<close>; with no channel
  registered it returns false and the state is the one it was given.
\<close>

theorem send_personal_message_cases:
  "(map_of (active_connections s) C = Some ws \<and> ws \<in> alive s \<longrightarrow>
      fst (send_personal_message m C s) = True \<and>
      delivered (snd (send_personal_message m C s)) = delivered s @ [(ws, m)] \<and>
      active_connections (snd (send_personal_message m C s)) = active_connections s \<and>
      peers (snd (send_personal_message m C s)) = peers s) \<and>
   (map_of (active_connections s) C = Some ws \<and> ws \<notin> alive s \<longrightarrow>
      fst (send_personal_message m C s) = False \<and>
      map_of (active_connections (snd (send_personal_message m C s))) C = None \<and>
      active_connections (snd (send_personal_message m C s)) =
        active_connections (disconnect C s) \<and>
      delivered (snd (send_personal_message m C s)) = delivered s \<and>
      peers (snd (send_personal_message m C s)) = peers s) \<and>
   (map_of (active_connections s) C = None \<longrightarrow>
      send_personal_message m C s = (False, s))"
  by (simp add: send_personal_message_def send_text_def disconnect_fields logger_fields
      AList.delete_conv')

theorem send_personal_message_cases_witness:
  "fst (send_personal_message ''hi'' ''bob'' registry_demo) = True \<and>
   delivered (snd (send_personal_message ''hi'' ''bob'' registry_demo)) = [(1, ''hi'')] \<and>
   fst (send_personal_message ''hi'' ''carol'' registry_demo) = False \<and>
   map_of (active_connections (snd (send_personal_message ''hi'' ''carol'' registry_demo)))
     ''carol'' = None \<and>
   send_personal_message ''hi'' ''dave'' registry_demo = (False, registry_demo)"
  using send_personal_message_cases [of registry_demo "''bob''" 1 "''hi''"]
    send_personal_message_cases [of registry_demo "''carol''" 2 "''hi''"]
    send_personal_message_cases [of registry_demo "''dave''" 0 "''hi''"]
  by (simp add: registry_demo_def startup_def disconnect_fields)


subsection \<open>The mailbox: writes and polls\<close>

lemma get_peer_data_fields:
  "active_connections (snd (get_peer_data p now s)) = active_connections s"
  "alive (snd (get_peer_data p now s)) = alive s"
  "delivered (snd (get_peer_data p now s)) = delivered s"
  "logged (snd (get_peer_data p now s)) = logged s"
  by (simp_all add: get_peer_data_def split: option.splits)

lemma store_get_peer_data:
  "peers (store p d (snd (get_peer_data p now s))) = AList.update p d (peers s)"
  by (simp add: get_peer_data_def store_def split: option.splits)

lemma handle_offer_peers:
  "peers (snd (handle_offer dumps sd now s)) =
     AList.update (to_peer sd)
       ((fst (get_peer_data (to_peer sd) now s))\<lparr>offer := Some (signal sd), last_updated := now\<rparr>)
       (peers s)"
  by (simp add: handle_offer_def Let_def split_beta send_peers store_def logger_def
       get_peer_data_def split: option.splits)

lemma handle_answer_peers:
  "peers (snd (handle_answer sd now s)) =
     AList.update (to_peer sd)
       ((fst (get_peer_data (to_peer sd) now s))\<lparr>answer := Some (signal sd), last_updated := now\<rparr>)
       (peers s)"
  by (simp add: handle_answer_def Let_def split_beta store_def logger_def
       get_peer_data_def split: option.splits)

lemma handle_ice_candidate_peers:
  "peers (snd (handle_ice_candidate ic now s)) =
     AList.update (ice_to_peer ic)
       ((fst (get_peer_data (ice_to_peer ic) now s))
          \<lparr>candidates := candidates (fst (get_peer_data (ice_to_peer ic) now s)) @ [candidate ic],
           last_updated := now\<rparr>)
       (peers s)"
  by (simp add: handle_ice_candidate_def Let_def split_beta store_def logger_def
       get_peer_data_def split: option.splits)

lemma check_signals_unknown:
  "map_of (peers s) p = None \<Longrightarrow> check_signals p now s = (NoPeer, s)"
  by (simp add: check_signals_def)

lemma check_signals_known:
  "map_of (peers s) p = Some d \<Longrightarrow>
   check_signals p now s =
     (Check (offer d) (answer d) (candidates d \<noteq> []) (candidates d) now,
      store p (d\<lparr>answer := None, candidates := []\<rparr>) s)"
  by (simp add: check_signals_def)

text \<open>
  Claim C1, as stated, fails for a peer that already has a candidate pending: the poll
  returns that candidate too, ahead of the two just appended.
\<close>

theorem pending_candidate_counterexample:
  "resp_candidates (fst (check_signals ''bob'' 4
     (snd (handle_ice_candidate
        \<lparr>ice_from_peer = ''al'', ice_to_peer = ''bob'', candidate = JObj [(''c'', JInt 8)]\<rparr> 3
     (snd (handle_ice_candidate
        \<lparr>ice_from_peer = ''al'', ice_to_peer = ''bob'', candidate = JObj [(''c'', JInt 7)]\<rparr> 2
     (snd (handle_answer
        \<lparr>from_peer = ''al'', to_peer = ''bob'', signal = JObj [(''sdp'', JStr ''z'')]\<rparr> 1
        mailbox_demo))))))))
   = [JObj [(''c'', JInt 1)], JObj [(''c'', JInt 7)], JObj [(''c'', JInt 8)]] \<and>
   resp_candidates (fst (check_signals ''bob'' 4
     (snd (handle_ice_candidate
        \<lparr>ice_from_peer = ''al'', ice_to_peer = ''bob'', candidate = JObj [(''c'', JInt 8)]\<rparr> 3
     (snd (handle_ice_candidate
        \<lparr>ice_from_peer = ''al'', ice_to_peer = ''bob'', candidate = JObj [(''c'', JInt 7)]\<rparr> 2
     (snd (handle_answer
        \<lparr>from_peer = ''al'', to_peer = ''bob'', signal = JObj [(''sdp'', JStr ''z'')]\<rparr> 1
        mailbox_demo))))))))
   \<noteq> [JObj [(''c'', JInt 7)], JObj [(''c'', JInt 8)]]"
  by (simp add: handle_answer_peers handle_ice_candidate_peers check_signals_def
      get_peer_data_def AList.update_conv' mailbox_demo_def startup_def)

text \<open>
  Claim C1, amended. After an answer \<open>Y\<close> and the candidates \<open>ca\<close>, \<open>cb\<close> were
  written for \<open>P\<close>, a poll of \<open>P\<close> returns the answer \<open>Y\<close> and the candidates that
  were pending for \<open>P\<close> before, followed by \<open>ca\<close> and \<open>cb\<close> in that order: exactly
  \<open>[ca, cb]\<close> when none were pending. The poll right after it returns no answer and no
  candidates.
\<close>

theorem answer_and_candidates_one_shot:
  fixes s :: server and A Ba Bb P :: string and Y ca cb :: json and ta tb tc td te :: time
  defines "s1 \<equiv> snd (handle_answer \<lparr>from_peer = A, to_peer = P, signal = Y\<rparr> ta s)"
  defines "s2 \<equiv> snd (handle_ice_candidate
                        \<lparr>ice_from_peer = Ba, ice_to_peer = P, candidate = ca\<rparr> tb s1)"
  defines "s3 \<equiv> snd (handle_ice_candidate
                        \<lparr>ice_from_peer = Bb, ice_to_peer = P, candidate = cb\<rparr> tc s2)"
  defines "s4 \<equiv> snd (check_signals P td s3)"
  shows "fst (check_signals P td s3) =
           Check (stored_offer s P) (Some Y) True (pending_candidates s P @ [ca, cb]) td \<and>
         (pending_candidates s P = [] \<longrightarrow>
            fst (check_signals P td s3) =
              Check (stored_offer s P) (Some Y) True [ca, cb] td) \<and>
         fst (check_signals P te s4) = Check (stored_offer s P) None False [] te"
proof -
  let ?d0 = "fst (get_peer_data P ta s)"
  have o: "offer ?d0 = stored_offer s P"
    by (simp add: get_peer_data_def stored_offer_def PeerData_new_def split: option.splits)
  have c: "candidates ?d0 = pending_candidates s P"
    by (simp add: get_peer_data_def pending_candidates_def PeerData_new_def split: option.splits)
  have m1: "map_of (peers s1) P = Some (?d0\<lparr>answer := Some Y, last_updated := ta\<rparr>)"
    by (simp add: s1_def handle_answer_peers AList.update_conv')
  have m2: "map_of (peers s2) P =
      Some (?d0\<lparr>answer := Some Y, candidates := candidates ?d0 @ [ca], last_updated := tb\<rparr>)"
    using m1
    by (simp add: s2_def handle_ice_candidate_peers AList.update_conv' get_peer_data_def)
  have m3: "map_of (peers s3) P =
      Some (?d0\<lparr>answer := Some Y, candidates := candidates ?d0 @ [ca, cb],
                 last_updated := tc\<rparr>)"
    using m2
    by (simp add: s3_def handle_ice_candidate_peers AList.update_conv' get_peer_data_def)
  have r1: "fst (check_signals P td s3) =
      Check (offer ?d0) (Some Y) True (candidates ?d0 @ [ca, cb]) td"
    using m3 by (simp add: check_signals_known)
  have m4: "map_of (peers s4) P =
      Some (?d0\<lparr>answer := None, candidates := [], last_updated := tc\<rparr>)"
    using m3 by (simp add: s4_def check_signals_known store_fields AList.update_conv')
  have r2: "fst (check_signals P te s4) = Check (offer ?d0) None False [] te"
    using m4 by (simp add: check_signals_known)
  from r1 r2 o c show ?thesis by simp
qed

theorem answer_and_candidates_one_shot_witness:
  "pending_candidates (startup {}) ''bob'' = [] \<and>
   fst (check_signals ''bob'' 4
     (snd (handle_ice_candidate
        \<lparr>ice_from_peer = ''al'', ice_to_peer = ''bob'', candidate = JObj [(''c'', JInt 2)]\<rparr> 3
     (snd (handle_ice_candidate
        \<lparr>ice_from_peer = ''al'', ice_to_peer = ''bob'', candidate = JObj [(''c'', JInt 1)]\<rparr> 2
     (snd (handle_answer
        \<lparr>from_peer = ''al'', to_peer = ''bob'', signal = JObj [(''sdp'', JStr ''y'')]\<rparr> 1
        (startup {}))))))))
   = Check None (Some (JObj [(''sdp'', JStr ''y'')])) True
       [JObj [(''c'', JInt 1)], JObj [(''c'', JInt 2)]] 4"
  using answer_and_candidates_one_shot [where s = "startup {}" and P = "''bob''" and A = "''al''"
      and Ba = "''al''" and Bb = "''al''" and Y = "JObj [(''sdp'', JStr ''y'')]"
      and ca = "JObj [(''c'', JInt 1)]" and cb = "JObj [(''c'', JInt 2)]"
      and ta = 1 and tb = 2 and tc = 3 and td = 4 and te = 5]
  by (simp add: pending_candidates_def stored_offer_def startup_def)

lemma handle_answer_fields:
  "active_connections (snd (handle_answer sd now s)) = active_connections s"
  "alive (snd (handle_answer sd now s)) = alive s"
  "delivered (snd (handle_answer sd now s)) = delivered s"
  by (simp_all add: handle_answer_def Let_def split_beta store_fields get_peer_data_fields
      logger_fields)

lemma handle_ice_candidate_fields:
  "active_connections (snd (handle_ice_candidate ic now s)) = active_connections s"
  "alive (snd (handle_ice_candidate ic now s)) = alive s"
  "delivered (snd (handle_ice_candidate ic now s)) = delivered s"
  by (simp_all add: handle_ice_candidate_def Let_def split_beta store_fields get_peer_data_fields
      logger_fields)

lemma send_delivered:
  "delivered (snd (send_personal_message m c s)) =
     delivered s @ (case map_of (active_connections s) c of
                      None \<Rightarrow> []
                    | Some ws \<Rightarrow> if ws \<in> alive s then [(ws, m)] else [])"
  by (simp add: send_personal_message_def send_text_def disconnect_fields logger_fields
      split: option.splits)

lemma handle_offer_delivered:
  "delivered (snd (handle_offer dumps sd now s)) =
     delivered s @ (case map_of (active_connections s) (to_peer sd) of
                      None \<Rightarrow> []
                    | Some ws \<Rightarrow> if ws \<in> alive s then [(ws, dumps (offer_message sd))] else [])"
  by (simp add: handle_offer_def Let_def split_beta send_delivered store_fields
      get_peer_data_fields logger_fields split: option.splits)

text \<open>
  Claim C10. On an existing record \<open>d\<close> of peer \<open>P\<close>, the offer handler changes
  only the offer (and the timestamp), the answer handler only the answer, and the
  candidate handler only appends to the candidates, which keep the earlier ones as a
  prefix.
\<close>

theorem writes_touch_own_field:
  assumes "map_of (peers s) P = Some d"
  shows "map_of (peers (snd (handle_offer dumps \<lparr>from_peer = A, to_peer = P, signal = X\<rparr> now s))) P =
           Some (d\<lparr>offer := Some X, last_updated := now\<rparr>) \<and>
         map_of (peers (snd (handle_answer \<lparr>from_peer = A, to_peer = P, signal = Y\<rparr> now s))) P =
           Some (d\<lparr>answer := Some Y, last_updated := now\<rparr>) \<and>
         map_of (peers (snd (handle_ice_candidate
                               \<lparr>ice_from_peer = A, ice_to_peer = P, candidate = c\<rparr> now s))) P =
           Some (d\<lparr>candidates := candidates d @ [c], last_updated := now\<rparr>)"
  using assms
  by (simp add: handle_offer_peers handle_answer_peers handle_ice_candidate_peers
      AList.update_conv' get_peer_data_def)

theorem writes_touch_own_field_witness:
  "map_of (peers mailbox_demo) ''bob'' =
     Some \<lparr>offer = Some (JObj [(''sdp'', JStr ''x'')]), answer = Some (JObj [(''sdp'', JStr ''y'')]),
           candidates = [JObj [(''c'', JInt 1)]], last_updated = 0\<rparr> \<and>
   map_of (peers (snd (handle_ice_candidate
       \<lparr>ice_from_peer = ''al'', ice_to_peer = ''bob'', candidate = JObj [(''c'', JInt 2)]\<rparr>
       9 mailbox_demo))) ''bob'' =
     Some \<lparr>offer = Some (JObj [(''sdp'', JStr ''x'')]), answer = Some (JObj [(''sdp'', JStr ''y'')]),
           candidates = [JObj [(''c'', JInt 1)], JObj [(''c'', JInt 2)]], last_updated = 9\<rparr>"
  using writes_touch_own_field [where s = mailbox_demo and P = "''bob''" and A = "''al''"
      and c = "JObj [(''c'', JInt 2)]" and now = 9
      and d = "\<lparr>offer = Some (JObj [(''sdp'', JStr ''x'')]),
                 answer = Some (JObj [(''sdp'', JStr ''y'')]),
                 candidates = [JObj [(''c'', JInt 1)]], last_updated = 0\<rparr>"]
  by (simp add: mailbox_demo_def startup_def)

text \<open>
  Claim C7. The three write handlers store their payload in the recipient's record and
  return their status in every state, the offer handler also when its push fails. The
  offer handler sends one frame to the recipient's registered socket when the send
  succeeds and none otherwise; the answer and candidate handlers send nothing and leave
  the registry alone.
\<close>

theorem writes_succeed_only_offer_pushes:
  "fst (handle_offer dumps sd now s) = ''Offer received'' \<and>
   stored_offer (snd (handle_offer dumps sd now s)) (to_peer sd) = Some (signal sd) \<and>
   delivered (snd (handle_offer dumps sd now s)) =
     delivered s @ (case map_of (active_connections s) (to_peer sd) of
                      None \<Rightarrow> []
                    | Some ws \<Rightarrow> if ws \<in> alive s then [(ws, dumps (offer_message sd))] else []) \<and>
   fst (handle_answer sd now s) = ''Answer received'' \<and>
   stored_answer (snd (handle_answer sd now s)) (to_peer sd) = Some (signal sd) \<and>
   delivered (snd (handle_answer sd now s)) = delivered s \<and>
   active_connections (snd (handle_answer sd now s)) = active_connections s \<and>
   fst (handle_ice_candidate ic now s) = ''ICE candidate received'' \<and>
   pending_candidates (snd (handle_ice_candidate ic now s)) (ice_to_peer ic) =
     pending_candidates s (ice_to_peer ic) @ [candidate ic] \<and>
   delivered (snd (handle_ice_candidate ic now s)) = delivered s \<and>
   active_connections (snd (handle_ice_candidate ic now s)) = active_connections s"
proof -
  have 1: "fst (handle_offer dumps sd now s) = ''Offer received''"
    by (simp add: handle_offer_def Let_def split_beta)
  have 2: "stored_offer (snd (handle_offer dumps sd now s)) (to_peer sd) = Some (signal sd)"
    by (simp add: stored_offer_def handle_offer_peers AList.update_conv')
  have 3: "fst (handle_answer sd now s) = ''Answer received''"
    by (simp add: handle_answer_def Let_def split_beta)
  have 4: "stored_answer (snd (handle_answer sd now s)) (to_peer sd) = Some (signal sd)"
    by (simp add: stored_answer_def handle_answer_peers AList.update_conv')
  have 5: "fst (handle_ice_candidate ic now s) = ''ICE candidate received''"
    by (simp add: handle_ice_candidate_def Let_def split_beta)
  have 6: "pending_candidates (snd (handle_ice_candidate ic now s)) (ice_to_peer ic) =
     pending_candidates s (ice_to_peer ic) @ [candidate ic]"
    by (simp add: pending_candidates_def handle_ice_candidate_peers AList.update_conv'
        get_peer_data_def PeerData_new_def split: option.splits)
  show ?thesis
    using 1 2 3 4 5 6
    by (simp add: handle_offer_delivered handle_answer_fields handle_ice_candidate_fields)
qed

theorem writes_succeed_only_offer_pushes_witness:
  "fst (handle_offer (\<lambda>j. ''frame'') \<lparr>from_peer = ''al'', to_peer = ''carol'', signal = JObj []\<rparr>
          5 registry_demo) = ''Offer received'' \<and>
   stored_offer (snd (handle_offer (\<lambda>j. ''frame'')
          \<lparr>from_peer = ''al'', to_peer = ''carol'', signal = JObj []\<rparr> 5 registry_demo)) ''carol''
     = Some (JObj []) \<and>
   delivered (snd (handle_offer (\<lambda>j. ''frame'')
          \<lparr>from_peer = ''al'', to_peer = ''carol'', signal = JObj []\<rparr> 5 registry_demo)) = [] \<and>
   delivered (snd (handle_offer (\<lambda>j. ''frame'')
          \<lparr>from_peer = ''al'', to_peer = ''bob'', signal = JObj []\<rparr> 5 registry_demo))
     = [(1, ''frame'')] \<and>
   delivered (snd (handle_answer
          \<lparr>from_peer = ''al'', to_peer = ''bob'', signal = JObj []\<rparr> 5 registry_demo)) = []"
  using writes_succeed_only_offer_pushes [where dumps = "\<lambda>j. ''frame''" and s = registry_demo
      and sd = "\<lparr>from_peer = ''al'', to_peer = ''carol'', signal = JObj []\<rparr>" and now = 5]
    writes_succeed_only_offer_pushes [where dumps = "\<lambda>j. ''frame''" and s = registry_demo
      and sd = "\<lparr>from_peer = ''al'', to_peer = ''bob'', signal = JObj []\<rparr>" and now = 5]
  by (simp add: registry_demo_def startup_def)

text \<open>
  Claim C8, as stated, fails for the poll: it clears the answer and the candidates of a
  record and leaves \<open>last_updated\<close> as it was.
\<close>

theorem drain_leaves_last_updated_counterexample:
  "map_of (peers (snd (check_signals ''bob'' 7 mailbox_demo))) ''bob'' \<noteq>
     map_of (peers mailbox_demo) ''bob'' \<and>
   map_option last_updated (map_of (peers (snd (check_signals ''bob'' 7 mailbox_demo))) ''bob'')
     = Some 0 \<and>
   map_option last_updated (map_of (peers (snd (check_signals ''bob'' 7 mailbox_demo))) ''bob'')
     \<noteq> Some 7"
  by (simp add: check_signals_def mailbox_demo_def startup_def store_def)

text \<open>
  Claim C8, amended. Each of the three writes sets \<open>last_updated\<close> of the record it
  writes to the instant of the write; a poll leaves \<open>last_updated\<close> unchanged.
\<close>

theorem last_updated_refreshed_by_writes:
  "map_option last_updated (map_of (peers (snd (handle_offer dumps sd now s))) (to_peer sd))
     = Some now \<and>
   map_option last_updated (map_of (peers (snd (handle_answer sd now s))) (to_peer sd))
     = Some now \<and>
   map_option last_updated
     (map_of (peers (snd (handle_ice_candidate ic now s))) (ice_to_peer ic)) = Some now \<and>
   map_option last_updated (map_of (peers (snd (check_signals P now s))) P)
     = map_option last_updated (map_of (peers s) P)"
  by (simp add: handle_offer_peers handle_answer_peers handle_ice_candidate_peers
      AList.update_conv' check_signals_def store_fields split: option.splits)

theorem last_updated_refreshed_by_writes_witness:
  "map_option last_updated (map_of (peers (snd (handle_answer
      \<lparr>from_peer = ''al'', to_peer = ''bob'', signal = JObj []\<rparr> 9 mailbox_demo))) ''bob'') = Some 9 \<and>
   map_option last_updated (map_of (peers (snd (check_signals ''bob'' 9 mailbox_demo))) ''bob'')
     = Some 0"
  using last_updated_refreshed_by_writes [where s = mailbox_demo and now = 9 and P = "''bob''"
      and sd = "\<lparr>from_peer = ''al'', to_peer = ''bob'', signal = JObj []\<rparr>"]
  by (simp add: mailbox_demo_def startup_def)

subsection \<open>Replacing a registered channel\<close>

lemma connect_Inr:
  "connect ws c s = Inr s' \<Longrightarrow>
     ws \<in> alive s \<and>
     active_connections s' = AList.update c ws (active_connections s) \<and>
     alive s' = alive s \<and> delivered s' = delivered s \<and> peers s' = peers s"
  by (auto simp: connect_def accept_def Let_def logger_def split: if_splits)

lemma filter_key_update:
  "distinct (map fst al) \<Longrightarrow> filter (\<lambda>kv. fst kv = k) (AList.update k v al) = [(k, v)]"
proof (induction al)
  case Nil
  then show ?case by simp
next
  case (Cons a al)
  have "fst a = k \<Longrightarrow> filter (\<lambda>kv. fst kv = k) al = []"
    using Cons.prems by (auto simp: filter_empty_conv image_iff)
  with Cons show ?case by (cases a) auto
qed

text \<open>
  Claim C5. After \<open>connect\<close> registered \<open>chanA\<close> and then \<open>chanB\<close> for \<open>C\<close>, the registry
  resolves \<open>C\<close> to \<open>chanB\<close> and holds no other entry for \<open>C\<close>; a send to \<open>C\<close>, in
  any later state with the same registry, puts its frame on \<open>chanB\<close> if that send
  succeeds and sends nothing otherwise; the second \<open>connect\<close> leaves the set of open
  sockets as it was, so \<open>chanA\<close> is not closed by it.
\<close>

theorem connect_replaces_channel:
  assumes a: "connect chanA C s = Inr s1" and b: "connect chanB C s1 = Inr s2"
  shows "map_of (active_connections s2) C = Some chanB \<and>
         (distinct (map fst (active_connections s)) \<longrightarrow>
            distinct (map fst (active_connections s2)) \<and> entries_for C s2 = [(C, chanB)]) \<and>
         (\<forall>s3 m. active_connections s3 = active_connections s2 \<longrightarrow>
            delivered (snd (send_personal_message m C s3)) =
              delivered s3 @ (if chanB \<in> alive s3 then [(chanB, m)] else [])) \<and>
         alive s2 = alive s1 \<and> chanA \<in> alive s2"
proof -
  from a have a': "active_connections s1 = AList.update C chanA (active_connections s)"
    "alive s1 = alive s" "chanA \<in> alive s"
    by (simp_all add: connect_Inr)
  from b have b': "active_connections s2 = AList.update C chanB (active_connections s1)"
    "alive s2 = alive s1"
    by (simp_all add: connect_Inr)
  have 1: "map_of (active_connections s2) C = Some chanB"
    by (simp add: b' AList.update_conv')
  have 2: "distinct (map fst (active_connections s)) \<longrightarrow>
            distinct (map fst (active_connections s2)) \<and> entries_for C s2 = [(C, chanB)]"
    by (simp add: a' b' entries_for_def AList.distinct_update filter_key_update)
  have 3: "\<forall>s3 m. active_connections s3 = active_connections s2 \<longrightarrow>
            delivered (snd (send_personal_message m C s3)) =
              delivered s3 @ (if chanB \<in> alive s3 then [(chanB, m)] else [])"
    using 1 by (simp add: send_delivered)
  from 1 2 3 a' b' show ?thesis by simp
qed

theorem connect_replaces_channel_witness:
  "connect 1 ''bob'' (startup {1, 2}) = Inr once_connected \<and>
   connect 2 ''bob'' once_connected = Inr twice_connected \<and>
   distinct (map fst (active_connections (startup {1, 2}))) \<and>
   map_of (active_connections twice_connected) ''bob'' = Some 2 \<and>
   entries_for ''bob'' twice_connected = [(''bob'', 2)] \<and>
   delivered (snd (send_personal_message ''hi'' ''bob'' twice_connected)) = [(2, ''hi'')] \<and>
   1 \<in> alive twice_connected"
proof -
  have s1: "connect 1 ''bob'' (startup {1, 2}) = Inr once_connected"
    by (simp add: connect_def accept_def startup_def Let_def logger_def once_connected_def)
  have s2: "connect 2 ''bob'' once_connected = Inr twice_connected"
    by (simp add: connect_def accept_def Let_def logger_def once_connected_def
        twice_connected_def)
  have d: "distinct (map fst (active_connections (startup {1, 2})))"
    by (simp add: startup_def)
  have "delivered (snd (send_personal_message ''hi'' ''bob'' twice_connected)) =
      delivered twice_connected @ (if 2 \<in> alive twice_connected then [(2, ''hi'')] else [])"
    using connect_replaces_channel [OF s1 s2] by blast
  then have e: "delivered (snd (send_personal_message ''hi'' ''bob'' twice_connected))
      = [(2, ''hi'')]"
    by (simp add: twice_connected_def)
  from connect_replaces_channel [OF s1 s2] d s1 s2 e show ?thesis
    by blast
qed

subsection \<open>The sweep\<close>

lemma expired_peers_filter:
  "expired_peers now ps =
     map fst (filter (\<lambda>kv. now - last_updated (snd kv) > minutes 30) ps)"
  by (induction ps) (auto simp: expired_peers_def)

lemma expired_peers_distinct:
  "distinct (map fst ps) \<Longrightarrow> distinct (expired_peers now ps)"
  by (simp add: expired_peers_filter distinct_map_filter)

lemma expired_peers_mem:
  "p \<in> set (expired_peers now ps) \<longleftrightarrow>
     (\<exists>d. (p, d) \<in> set ps \<and> now - last_updated d > minutes 30)"
  by (induction ps) (auto simp: expired_peers_def)

lemma expired_peers_iff:
  assumes "distinct (map fst ps)" and "map_of ps p = Some d"
  shows "p \<in> set (expired_peers now ps) \<longleftrightarrow> now - last_updated d > minutes 30"
proof -
  have u: "\<And>d'. (p, d') \<in> set ps \<Longrightarrow> d' = d"
    using assms by (metis map_of_is_SomeI option.inject)
  have m: "(p, d) \<in> set ps"
    using assms(2) by (rule map_of_SomeD)
  show ?thesis
  proof
    assume "p \<in> set (expired_peers now ps)"
    then obtain d' where "(p, d') \<in> set ps" "now - last_updated d' > minutes 30"
      unfolding expired_peers_mem by blast
    with u show "now - last_updated d > minutes 30"
      by blast
  next
    assume "now - last_updated d > minutes 30"
    with m show "p \<in> set (expired_peers now ps)"
      unfolding expired_peers_mem by blast
  qed
qed

lemma expired_peers_present:
  assumes "k \<in> set (expired_peers now ps)"
  shows "map_of ps k \<noteq> None"
proof -
  from assms obtain d where "(k, d) \<in> set ps"
    unfolding expired_peers_mem by blast
  then have "k \<in> fst ` set ps"
    by (metis fst_conv imageI)
  then show ?thesis
    by (simp add: map_of_eq_None_iff)
qed

lemma cleanup_for_deletes:
  "distinct ks \<Longrightarrow> \<forall>k \<in> set ks. map_of (peers s) k \<noteq> None \<Longrightarrow>
     snd (cleanup_for ks s) = None \<and>
     map_of (peers (fst (cleanup_for ks s))) =
       (\<lambda>k. if k \<in> set ks then None else map_of (peers s) k)"
proof (induction ks arbitrary: s)
  case Nil
  then show ?case by simp
next
  case (Cons k ks)
  let ?s' = "logger INFO (CleanedUp k) (s\<lparr>peers := AList.delete k (peers s)\<rparr>)"
  have m: "map_of (peers ?s') = (map_of (peers s))(k := None)"
    by (simp add: logger_fields AList.delete_conv')
  have "\<forall>k' \<in> set ks. map_of (peers ?s') k' \<noteq> None"
    using Cons.prems by (auto simp: m)
  with Cons.IH [of ?s'] Cons.prems(1)
  have ih: "snd (cleanup_for ks ?s') = None"
    "map_of (peers (fst (cleanup_for ks ?s'))) =
       (\<lambda>k'. if k' \<in> set ks then None else map_of (peers ?s') k')"
    by simp_all
  have present: "map_of (peers s) k \<noteq> None"
    using Cons.prems(2) by simp
  show ?case
    using present ih by (auto simp: m fun_eq_iff)
qed

lemma cleanup_iteration_peers:
  assumes "distinct (map fst (peers s))"
  shows "snd (cleanup_for (expired_peers now (peers s)) s) = None"
    and "map_of (peers (cleanup_iteration now s)) =
       (\<lambda>k. if k \<in> set (expired_peers now (peers s)) then None else map_of (peers s) k)"
proof -
  have d: "distinct (expired_peers now (peers s))"
    using assms by (rule expired_peers_distinct)
  have p: "\<forall>k \<in> set (expired_peers now (peers s)). map_of (peers s) k \<noteq> None"
    by (simp add: expired_peers_present)
  from cleanup_for_deletes [OF d p]
  show "snd (cleanup_for (expired_peers now (peers s)) s) = None"
    and "map_of (peers (cleanup_iteration now s)) =
       (\<lambda>k. if k \<in> set (expired_peers now (peers s)) then None else map_of (peers s) k)"
    by (simp_all add: cleanup_iteration_def split_beta split: option.splits prod.splits)
qed

lemma cleanup_old_peers_append:
  "cleanup_old_peers (ticks @ [now]) s = cleanup_iteration now (cleanup_old_peers ticks s)"
  by (induction ticks arbitrary: s) simp_all

text \<open>
  Claim C6. At a pass of the sweep over a mailbox (a dictionary: no key twice), a record
  whose \<open>last_updated\<close> lies more than 30 minutes before the clock reading is gone after
  the pass, and any other record is still there, unchanged; the pass raises nothing.
  Whatever the body of a pass does, the loop goes on to the next pass, and an exception
  raised by the body is caught and logged as an error.
\<close>

theorem sweep_evicts_idle_records:
  "(distinct (map fst (peers s)) \<and> map_of (peers s) p = Some d \<longrightarrow>
      (now - last_updated d > minutes 30 \<longrightarrow>
         map_of (peers (cleanup_iteration now s)) p = None) \<and>
      (now - last_updated d \<le> minutes 30 \<longrightarrow>
         map_of (peers (cleanup_iteration now s)) p = Some d) \<and>
      snd (cleanup_for (expired_peers now (peers s)) s) = None) \<and>
   (cleanup_for (expired_peers now (peers s)) s = (s1, Some e) \<longrightarrow>
      cleanup_iteration now s = logger ERROR (CleanupError e) s1) \<and>
   cleanup_old_peers (now # later) s = cleanup_old_peers later (cleanup_iteration now s) \<and>
   cleanup_old_peers (ticks @ [now]) s = cleanup_iteration now (cleanup_old_peers ticks s)"
proof -
  have 1: "distinct (map fst (peers s)) \<and> map_of (peers s) p = Some d \<longrightarrow>
      (now - last_updated d > minutes 30 \<longrightarrow>
         map_of (peers (cleanup_iteration now s)) p = None) \<and>
      (now - last_updated d \<le> minutes 30 \<longrightarrow>
         map_of (peers (cleanup_iteration now s)) p = Some d) \<and>
      snd (cleanup_for (expired_peers now (peers s)) s) = None"
    by (simp add: cleanup_iteration_peers expired_peers_iff)
  have 2: "cleanup_for (expired_peers now (peers s)) s = (s1, Some e) \<longrightarrow>
      cleanup_iteration now s = logger ERROR (CleanupError e) s1"
    by (simp add: cleanup_iteration_def)
  from 1 2 show ?thesis
    by (simp add: cleanup_old_peers_append)
qed

theorem sweep_evicts_idle_records_witness:
  "distinct (map fst (peers sweep_demo)) \<and>
   map_of (peers sweep_demo) ''old'' = Some (PeerData_new 0) \<and>
   minutes 30 + 1 - last_updated (PeerData_new 0) > minutes 30 \<and>
   map_of (peers (cleanup_iteration (minutes 30 + 1) sweep_demo)) ''old'' = None \<and>
   map_of (peers sweep_demo) ''edge'' = Some (PeerData_new 1) \<and>
   minutes 30 + 1 - last_updated (PeerData_new 1) \<le> minutes 30 \<and>
   map_of (peers (cleanup_iteration (minutes 30 + 1) sweep_demo)) ''edge'' =
     Some (PeerData_new 1) \<and>
   cleanup_for (expired_peers (minutes 30 + 1) (peers stale_twice)) stale_twice =
     (logger INFO (CleanedUp ''bob'') (startup {}), Some KeyError) \<and>
   cleanup_iteration (minutes 30 + 1) stale_twice =
     logger ERROR (CleanupError KeyError) (logger INFO (CleanedUp ''bob'') (startup {}))"
proof -
  have a: "distinct (map fst (peers sweep_demo))"
    "map_of (peers sweep_demo) ''old'' = Some (PeerData_new 0)"
    "map_of (peers sweep_demo) ''edge'' = Some (PeerData_new 1)"
    by (simp_all add: sweep_demo_def startup_def)
  have b: "minutes 30 + 1 - last_updated (PeerData_new 0) > minutes 30"
    "minutes 30 + 1 - last_updated (PeerData_new 1) \<le> minutes 30"
    by (simp_all add: PeerData_new_def)
  have c: "cleanup_for (expired_peers (minutes 30 + 1) (peers stale_twice)) stale_twice =
     (logger INFO (CleanedUp ''bob'') (startup {}), Some KeyError)"
    by (simp add: stale_twice_def startup_def expired_peers_def PeerData_new_def logger_def
        minutes_def)
  from a b c
    sweep_evicts_idle_records [where s = sweep_demo and p = "''old''" and d = "PeerData_new 0"
      and now = "minutes 30 + 1"]
    sweep_evicts_idle_records [where s = sweep_demo and p = "''edge''" and d = "PeerData_new 1"
      and now = "minutes 30 + 1"]
    sweep_evicts_idle_records [where s = stale_twice and now = "minutes 30 + 1"
      and e = KeyError and ?s1.0 = "logger INFO (CleanedUp ''bob'') (startup {})"]
  show ?thesis
    by simp
qed

subsection \<open>Frames on the push channel\<close>





subsection \<open>What persists in the mailbox along a run\<close>

lemma connect_peers: "connect ws c s = Inr s' \<Longrightarrow> peers s' = peers s"
  by (auto simp: connect_def accept_def Let_def logger_def split: if_splits)

lemma on_text_peers: "peers (on_text loads dumps ws c data s) = peers s"
  by (simp add: on_text_def Let_def logger_fields send_peers split: option.splits sum.splits)

lemma cleanup_for_keeps:
  "P \<notin> set ks \<Longrightarrow> map_of (peers (fst (cleanup_for ks s))) P = map_of (peers s) P"
proof (induction ks arbitrary: s)
  case Nil
  then show ?case by simp
next
  case (Cons k ks)
  then have "P \<noteq> k" and "P \<notin> set ks" by auto
  with Cons.IH [of "logger INFO (CleanedUp k) (s\<lparr>peers := AList.delete k (peers s)\<rparr>)"]
  show ?case
    by (simp add: logger_fields)
qed

lemma cleanup_for_absent:
  "map_of (peers s) P = None \<Longrightarrow> map_of (peers (fst (cleanup_for ks s))) P = None"
proof (induction ks arbitrary: s)
  case Nil
  then show ?case by simp
next
  case (Cons k ks)
  have "map_of (peers (logger INFO (CleanedUp k) (s\<lparr>peers := AList.delete k (peers s)\<rparr>))) P
      = None"
    using Cons.prems by (simp add: logger_fields AList.delete_conv')
  with Cons.IH show ?case
    using Cons.prems by simp
qed

lemma cleanup_iteration_fst:
  "peers (cleanup_iteration now s) = peers (fst (cleanup_for (expired_peers now (peers s)) s))"
  by (simp add: cleanup_iteration_def logger_fields split: prod.splits option.splits)

lemma step_other_peers:
  "peers (step loads dumps (EvConnect ws c) s) = peers s"
  "peers (step loads dumps (EvText ws c data) s) = peers s"
  "peers (step loads dumps (EvExit c) s) = peers s"
  "peers (step loads dumps (EvDrop ws) s) = peers s"
  by (simp_all add: on_text_peers disconnect_fields logger_fields connect_peers
      split: sum.splits)

lemma check_signals_peers:
  "map_of (peers (snd (check_signals p now s))) P =
     (if p = P
      then map_option (\<lambda>d. d\<lparr>answer := None, candidates := []\<rparr>) (map_of (peers s) P)
      else map_of (peers s) P)"
  by (simp add: check_signals_def store_fields AList.update_conv' split: option.splits)

lemma step_keeps_absent:
  assumes "map_of (peers s) P = None" and "\<not> writes_to P ev"
  shows "map_of (peers (step loads dumps ev s)) P = None"
proof (cases ev)
  case (EvOffer sd now)
  with assms show ?thesis by (simp add: handle_offer_peers AList.update_conv')
next
  case (EvAnswer sd now)
  with assms show ?thesis by (simp add: handle_answer_peers AList.update_conv')
next
  case (EvIce ic now)
  with assms show ?thesis by (simp add: handle_ice_candidate_peers AList.update_conv')
next
  case (EvCheck p now)
  with assms show ?thesis by (simp add: check_signals_peers)
next
  case (EvSweep now)
  with assms show ?thesis by (simp add: cleanup_iteration_fst cleanup_for_absent)
next
  case (EvConnect ws c)
  with assms show ?thesis by (simp only: step_other_peers)
next
  case (EvText ws c data)
  with assms show ?thesis by (simp only: step_other_peers)
next
  case (EvExit c)
  with assms show ?thesis by (simp only: step_other_peers)
next
  case (EvDrop ws)
  with assms show ?thesis by (simp only: step_other_peers)
qed

lemma run_keeps_absent:
  "map_of (peers s) P = None \<Longrightarrow> list_all (\<lambda>ev. \<not> writes_to P ev) evs \<Longrightarrow>
     map_of (peers (run loads dumps evs s)) P = None"
proof (induction evs arbitrary: s)
  case Nil
  then show ?case by simp
next
  case (Cons ev evs)
  then show ?case by (simp add: step_keeps_absent)
qed

lemma stored_offer_Some:
  "stored_offer s P = Some X \<longleftrightarrow> (\<exists>d. map_of (peers s) P = Some d \<and> offer d = Some X)"
  by (simp add: stored_offer_def split: option.splits)

lemma step_keeps_offer:
  assumes "stored_offer s P = Some X" and "keeps_offer P ev s"
  shows "stored_offer (step loads dumps ev s) P = Some X"
proof -
  from assms(1) obtain d where d: "map_of (peers s) P = Some d" "offer d = Some X"
    unfolding stored_offer_Some by blast
  show ?thesis
  proof (cases ev)
    case (EvOffer sd now)
    with assms(2) d show ?thesis
      by (simp add: stored_offer_def handle_offer_peers AList.update_conv')
  next
    case (EvAnswer sd now)
    with d show ?thesis
      by (auto simp: stored_offer_def handle_answer_peers AList.update_conv' get_peer_data_def)
  next
    case (EvIce ic now)
    with d show ?thesis
      by (auto simp: stored_offer_def handle_ice_candidate_peers AList.update_conv'
          get_peer_data_def)
  next
    case (EvCheck p now)
    with d show ?thesis
      by (simp add: stored_offer_def check_signals_peers)
  next
    case (EvSweep now)
    with assms(2) have "P \<notin> set (expired_peers now (peers s))"
      by simp
    then have "map_of (peers (cleanup_iteration now s)) P = map_of (peers s) P"
      by (simp add: cleanup_iteration_fst cleanup_for_keeps)
    with EvSweep d show ?thesis
      by (simp add: stored_offer_def)
  next
    case (EvConnect ws c)
    with d show ?thesis by (simp add: stored_offer_def step_other_peers del: step.simps)
  next
    case (EvText ws c data)
    with d show ?thesis by (simp add: stored_offer_def step_other_peers del: step.simps)
  next
    case (EvExit c)
    with d show ?thesis by (simp add: stored_offer_def step_other_peers del: step.simps)
  next
    case (EvDrop ws)
    with d show ?thesis by (simp add: stored_offer_def step_other_peers del: step.simps)
  qed
qed

lemma run_keeps_offer:
  "stored_offer s P = Some X \<Longrightarrow> undisturbed loads dumps P evs s \<Longrightarrow>
     stored_offer (run loads dumps evs s) P = Some X"
proof (induction evs arbitrary: s)
  case Nil
  then show ?case by simp
next
  case (Cons ev evs)
  then show ?case by (simp add: step_keeps_offer del: step.simps)
qed

lemma check_signals_offer:
  assumes "stored_offer s P = Some X"
  shows "fst (check_signals P t s) \<noteq> NoPeer"
    and "resp_offer (fst (check_signals P t s)) = Some X"
    and "stored_offer (snd (check_signals P t s)) P = Some X"
proof -
  from assms obtain d where d: "map_of (peers s) P = Some d" "offer d = Some X"
    unfolding stored_offer_Some by blast
  then show "fst (check_signals P t s) \<noteq> NoPeer"
    and "resp_offer (fst (check_signals P t s)) = Some X"
    and "stored_offer (snd (check_signals P t s)) P = Some X"
    by (simp_all add: check_signals_known stored_offer_def store_fields AList.update_conv')
qed

text \<open>
  Claim C2. After the offer \<open>X\<close> was written for \<open>P\<close>, and whatever happens next other
  than a new offer to \<open>P\<close> or a pass of the sweep that finds the record of \<open>P\<close>
  expired (polls of \<open>P\<close> included), a poll of \<open>P\<close> returns the offer \<open>X\<close> and leaves
  \<open>X\<close> stored.
\<close>

theorem offer_survives_polls:
  assumes "undisturbed loads dumps P evs
             (snd (handle_offer dumps \<lparr>from_peer = A, to_peer = P, signal = X\<rparr> ta s))"
  shows "fst (check_signals P tb (run loads dumps evs
             (snd (handle_offer dumps \<lparr>from_peer = A, to_peer = P, signal = X\<rparr> ta s))))
           \<noteq> NoPeer \<and>
         resp_offer (fst (check_signals P tb (run loads dumps evs
             (snd (handle_offer dumps \<lparr>from_peer = A, to_peer = P, signal = X\<rparr> ta s)))))
           = Some X \<and>
         stored_offer (snd (check_signals P tb (run loads dumps evs
             (snd (handle_offer dumps \<lparr>from_peer = A, to_peer = P, signal = X\<rparr> ta s))))) P
           = Some X"
proof -
  let ?s1 = "snd (handle_offer dumps \<lparr>from_peer = A, to_peer = P, signal = X\<rparr> ta s)"
  have "stored_offer ?s1 P = Some X"
    by (simp add: stored_offer_def handle_offer_peers AList.update_conv')
  then have "stored_offer (run loads dumps evs ?s1) P = Some X"
    using assms by (rule run_keeps_offer)
  then show ?thesis
    by (simp add: check_signals_offer)
qed

theorem offer_survives_polls_witness:
  "undisturbed demo_loads demo_dumps ''bob'' poll_events
     (snd (handle_offer demo_dumps
        \<lparr>from_peer = ''al'', to_peer = ''bob'', signal = JObj [(''sdp'', JStr ''x'')]\<rparr> 0
        (startup {}))) \<and>
   resp_offer (fst (check_signals ''bob'' 4 (run demo_loads demo_dumps poll_events
     (snd (handle_offer demo_dumps
        \<lparr>from_peer = ''al'', to_peer = ''bob'', signal = JObj [(''sdp'', JStr ''x'')]\<rparr> 0
        (startup {}))))))
     = Some (JObj [(''sdp'', JStr ''x'')])"
proof -
  have u: "undisturbed demo_loads demo_dumps ''bob'' poll_events
     (snd (handle_offer demo_dumps
        \<lparr>from_peer = ''al'', to_peer = ''bob'', signal = JObj [(''sdp'', JStr ''x'')]\<rparr> 0
        (startup {})))"
    by (simp add: poll_events_def handle_offer_def get_peer_data_def store_def logger_def
        send_personal_message_def check_signals_def cleanup_iteration_def expired_peers_def
        minutes_def PeerData_new_def startup_def Let_def)
  from offer_survives_polls [OF u, of 4] u show ?thesis
    by blast
qed

text \<open>
  Claim C3. A poll of a peer that has no record returns the no-peer result and leaves the
  state as it was; and a peer has no record in any state reached from startup by events
  none of which is an offer, an answer or a candidate written to that peer.
\<close>

theorem unknown_peer_poll:
  "(map_of (peers s) P = None \<longrightarrow> check_signals P now s = (NoPeer, s)) \<and>
   (list_all (\<lambda>ev. \<not> writes_to P ev) evs \<longrightarrow>
      map_of (peers (run loads dumps evs (startup sockets))) P = None \<and>
      check_signals P now (run loads dumps evs (startup sockets)) =
        (NoPeer, run loads dumps evs (startup sockets)))"
proof -
  have 0: "map_of (peers (startup sockets)) P = None"
    by (simp add: startup_def)
  have 1: "list_all (\<lambda>ev. \<not> writes_to P ev) evs \<Longrightarrow>
      map_of (peers (run loads dumps evs (startup sockets))) P = None"
    using 0 by (rule run_keeps_absent)
  show ?thesis
    using 1 by (simp add: check_signals_unknown)
qed

theorem unknown_peer_poll_witness:
  "map_of (peers (startup {})) ''zed'' = None \<and>
   check_signals ''zed'' 9 (startup {}) = (NoPeer, startup {}) \<and>
   list_all (\<lambda>ev. \<not> writes_to ''zed'' ev) other_events \<and>
   check_signals ''zed'' 9 (run demo_loads demo_dumps other_events (startup {})) =
     (NoPeer, run demo_loads demo_dumps other_events (startup {}))"
proof -
  have a: "map_of (peers (startup {})) ''zed'' = None"
    by (simp add: startup_def)
  have b: "list_all (\<lambda>ev. \<not> writes_to ''zed'' ev) other_events"
    by (simp add: other_events_def offer_demo_def)
  from a b
    unknown_peer_poll [where s = "startup {}" and P = "''zed''" and now = 9
      and evs = other_events and loads = demo_loads and dumps = demo_dumps and sockets = "{}"]
  show ?thesis
    by blast
qed

subsection \<open>The mailbox stays a dictionary\<close>

text \<open>
  The mailbox of every state reached from startup is a dictionary: no key occurs twice.
\<close>

lemma cleanup_for_distinct:
  "distinct (map fst (peers s)) \<Longrightarrow> distinct (map fst (peers (fst (cleanup_for ks s))))"
proof (induction ks arbitrary: s)
  case Nil
  then show ?case by simp
next
  case (Cons k ks)
  have "distinct (map fst (peers (logger INFO (CleanedUp k)
      (s\<lparr>peers := AList.delete k (peers s)\<rparr>))))"
    using Cons.prems by (simp add: logger_fields AList.distinct_delete)
  with Cons.IH show ?case
    using Cons.prems by simp
qed

lemma check_signals_distinct:
  "distinct (map fst (peers s)) \<Longrightarrow> distinct (map fst (peers (snd (check_signals p now s))))"
  by (simp add: check_signals_def store_fields AList.distinct_update split: option.splits)

lemma step_distinct_peers:
  assumes "distinct (map fst (peers s))"
  shows "distinct (map fst (peers (step loads dumps ev s)))"
proof (cases ev)
  case (EvOffer sd now)
  with assms show ?thesis by (simp add: handle_offer_peers AList.distinct_update)
next
  case (EvAnswer sd now)
  with assms show ?thesis by (simp add: handle_answer_peers AList.distinct_update)
next
  case (EvIce ic now)
  with assms show ?thesis by (simp add: handle_ice_candidate_peers AList.distinct_update)
next
  case (EvCheck p now)
  with assms show ?thesis by (simp add: check_signals_distinct)
next
  case (EvSweep now)
  with assms show ?thesis by (simp add: cleanup_iteration_fst cleanup_for_distinct)
next
  case (EvConnect ws c)
  with assms show ?thesis by (simp only: step_other_peers)
next
  case (EvText ws c data)
  with assms show ?thesis by (simp only: step_other_peers)
next
  case (EvExit c)
  with assms show ?thesis by (simp only: step_other_peers)
next
  case (EvDrop ws)
  with assms show ?thesis by (simp only: step_other_peers)
qed

lemma run_distinct_peers:
  "distinct (map fst (peers s)) \<Longrightarrow> distinct (map fst (peers (run loads dumps evs s)))"
proof (induction evs arbitrary: s)
  case Nil
  then show ?case by simp
next
  case (Cons ev evs)
  then show ?case by (simp add: step_distinct_peers del: step.simps)
qed

lemma reachable_mailbox_distinct:
  "distinct (map fst (peers (run loads dumps evs (startup sockets))))"
  by (rule run_distinct_peers) (simp add: startup_def)

end
